theory Spec2Isabelle
  imports Complex_Main "HOL-Library.Multiset"
begin

section \<open>The rerank handler of the cross-encoder server\<close>

text \<open>
  The development follows \<^verbatim>\<open>scripts/cross_encoder_server.py\<close>, function \<^verbatim>\<open>rerank\<close>
  (lines 46 to 106). The handler reads the result of \<^verbatim>\<open>request.get_json()\<close>, validates
  three fields of it, calls the global \<^verbatim>\<open>model\<close> once, sorts the scores and
  answers with a JSON body and a status. Flask and the cross-encoder are libraries: the
  outcome of \<^verbatim>\<open>request.get_json()\<close> is the handler's input here, and
  \<^verbatim>\<open>model.predict(pairs).tolist()\<close> is a function held by the server context.
\<close>

subsection \<open>Python values of a parsed JSON body\<close>

text \<open>
  What \<^verbatim>\<open>json.loads\<close> produces: \<^verbatim>\<open>None\<close>, \<^verbatim>\<open>bool\<close>, \<^verbatim>\<open>int\<close>,
  \<^verbatim>\<open>float\<close>, \<^verbatim>\<open>str\<close>, \<^verbatim>\<open>list\<close> and \<^verbatim>\<open>dict\<close>. A dict is the list of its
  items in insertion order, with distinct keys. A float of the body is read as a real: the
  handler uses only its type and whether it is zero. Strings are lists of characters.
\<close>

datatype json =
    JNull
  | JBool bool
  | JInt int
  | JFloat real
  | JStr string
  | JList "json list"
  | JDict "(string \<times> json) list"

fun type_name :: "json \<Rightarrow> string" where
  "type_name JNull = ''NoneType''"
| "type_name (JBool b) = ''bool''"
| "type_name (JInt n) = ''int''"
| "type_name (JFloat r) = ''float''"
| "type_name (JStr s) = ''str''"
| "type_name (JList xs) = ''list''"
| "type_name (JDict kvs) = ''dict''"

text \<open>
  Exceptions, each with the text that \<^verbatim>\<open>str(e)\<close> gives (CPython 3.11).
  \<open>Raised\<close> is an exception that comes out of a library call
  (\<^verbatim>\<open>request.get_json()\<close> or \<^verbatim>\<open>model.predict\<close>); all of them are subclasses of
  \<^verbatim>\<open>Exception\<close>, which is what line 104 catches.
\<close>

datatype pyexc =
    TypeError string
  | AttributeError string
  | ValueError string
  | Raised string

fun str_exc :: "pyexc \<Rightarrow> string" where
  "str_exc (TypeError m) = m"
| "str_exc (AttributeError m) = m"
| "str_exc (ValueError m) = m"
| "str_exc (Raised m) = m"

definition quoted :: "string \<Rightarrow> string" where
  "quoted s = CHR 0x27 # s @ [CHR 0x27]"

text \<open>\<^verbatim>\<open>not x\<close> is the negation of Python's truth value.\<close>

fun truthy :: "json \<Rightarrow> bool" where
  "truthy JNull = False"
| "truthy (JBool b) = b"
| "truthy (JInt n) = (n \<noteq> 0)"
| "truthy (JFloat r) = (r \<noteq> 0)"
| "truthy (JStr s) = (s \<noteq> [])"
| "truthy (JList xs) = (xs \<noteq> [])"
| "truthy (JDict kvs) = (kvs \<noteq> [])"

text \<open>\<^verbatim>\<open>len(x)\<close>: defined on strings, lists and dicts, a TypeError elsewhere.\<close>

fun py_len :: "json \<Rightarrow> pyexc + nat" where
  "py_len (JStr s) = Inr (length s)"
| "py_len (JList xs) = Inr (length xs)"
| "py_len (JDict kvs) = Inr (length kvs)"
| "py_len v = Inl (TypeError (''object of type '' @ quoted (type_name v) @ '' has no len()''))"

text \<open>\<^verbatim>\<open>x.get(key, default)\<close>: a method of dicts only, an AttributeError elsewhere.\<close>

fun dict_get :: "json \<Rightarrow> string \<Rightarrow> json \<Rightarrow> pyexc + json" where
  "dict_get (JDict kvs) k d = Inr (case map_of kvs k of None \<Rightarrow> d | Some v \<Rightarrow> v)"
| "dict_get v k d =
     Inl (AttributeError (quoted (type_name v) @ '' object has no attribute '' @ quoted ''get''))"

text \<open>
  \<^verbatim>\<open>for doc in x\<close>: the elements of a list, the characters of a string, the keys of
  a dict.
\<close>

fun py_iter :: "json \<Rightarrow> pyexc + json list" where
  "py_iter (JList xs) = Inr xs"
| "py_iter (JStr s) = Inr (map (\<lambda>c. JStr [c]) s)"
| "py_iter (JDict kvs) = Inr (map (\<lambda>kv. JStr (fst kv)) kvs)"
| "py_iter v = Inl (TypeError (quoted (type_name v) @ '' object is not iterable''))"

text \<open>
  \<^verbatim>\<open>x[:50]\<close>, of the log line 81. Strings and lists are sliced; a dict takes the slice
  as a key and fails (as an unhashable key up to CPython 3.11); the other values have no
  subscript.
\<close>

fun subscript_to_50 :: "json \<Rightarrow> pyexc + json" where
  "subscript_to_50 (JStr s) = Inr (JStr (take 50 s))"
| "subscript_to_50 (JList xs) = Inr (JList (take 50 xs))"
| "subscript_to_50 (JDict kvs) = Inl (TypeError (''unhashable type: '' @ quoted ''slice''))"
| "subscript_to_50 v = Inl (TypeError (quoted (type_name v) @ '' object is not subscriptable''))"

text \<open>
  \<^verbatim>\<open>xs[:n]\<close> on a list. \<^verbatim>\<open>None\<close> keeps the whole list; an int counts from the start,
  a negative one from the end; a bool is an int (\<^verbatim>\<open>True\<close> is 1); any other value is a
  TypeError. The bound is never out of range: a slice stops at the ends of the list.
\<close>

definition slice_int :: "int \<Rightarrow> 'a list \<Rightarrow> 'a list" where
  "slice_int n xs = take (nat (if n < 0 then int (length xs) + n else n)) xs"

fun slice_to :: "json \<Rightarrow> 'a list \<Rightarrow> pyexc + 'a list" where
  "slice_to JNull xs = Inr xs"
| "slice_to (JInt n) xs = Inr (slice_int n xs)"
| "slice_to (JBool b) xs = Inr (slice_int (if b then 1 else 0) xs)"
| "slice_to v xs =
     Inl (TypeError ''slice indices must be integers or None or have an __index__ method'')"

subsection \<open>Python floats and the sort of a list\<close>

text \<open>
  A score is a Python float: a finite number, an infinity or NaN. The handler does no
  arithmetic on the scores that reaches the response; it compares them. \<^verbatim>\<open>a < b\<close> is
  false when either side is NaN, and so is \<^verbatim>\<open>a >= b\<close>.
\<close>

datatype pyfloat = Finite real | PosInf | NegInf | NaN

fun float_lt :: "pyfloat \<Rightarrow> pyfloat \<Rightarrow> bool" where
  "float_lt (Finite a) (Finite b) = (a < b)"
| "float_lt (Finite a) PosInf = True"
| "float_lt (Finite a) NegInf = False"
| "float_lt NegInf (Finite b) = True"
| "float_lt NegInf PosInf = True"
| "float_lt NegInf NegInf = False"
| "float_lt PosInf b = False"
| "float_lt NaN b = False"
| "float_lt a NaN = False"

definition float_ge :: "pyfloat \<Rightarrow> pyfloat \<Rightarrow> bool" where
  "float_ge a b = (a \<noteq> NaN \<and> b \<noteq> NaN \<and> \<not> float_lt a b)"

text \<open>
  \<^verbatim>\<open>list.sort\<close> of CPython 3.11 compares with \<^verbatim>\<open><\<close> only. A list of fewer than 64
  entries is sorted as written here: \<^verbatim>\<open>count_run\<close> takes the longest prefix that is
  ascending (no entry below the one before it) or strictly descending, a descending run
  is reversed, and \<^verbatim>\<open>binarysort\<close> inserts each further entry at the place that a
  binary search finds. A longer list is cut into such runs, which are then merged; when
  no key is NaN the keys are linearly ordered and the result is the same list, the one
  that every stable sort gives, so the definition is the sort at every length there.
\<close>

fun run_ascending :: "('a \<Rightarrow> 'a \<Rightarrow> bool) \<Rightarrow> 'a \<Rightarrow> 'a list \<Rightarrow> nat" where
  "run_ascending lt prev [] = 0"
| "run_ascending lt prev (x # xs) =
     (if lt x prev then 0 else Suc (run_ascending lt x xs))"

fun run_descending :: "('a \<Rightarrow> 'a \<Rightarrow> bool) \<Rightarrow> 'a \<Rightarrow> 'a list \<Rightarrow> nat" where
  "run_descending lt prev [] = 0"
| "run_descending lt prev (x # xs) =
     (if lt x prev then Suc (run_descending lt x xs) else 0)"

fun count_run :: "('a \<Rightarrow> 'a \<Rightarrow> bool) \<Rightarrow> 'a list \<Rightarrow> nat \<times> bool" where
  "count_run lt (a # b # xs) =
     (if lt b a then (2 + run_descending lt b xs, True)
      else (2 + run_ascending lt b xs, False))"
| "count_run lt xs = (length xs, False)"

text \<open>
  The binary search of \<^verbatim>\<open>binarysort\<close>: the place of \<open>pivot\<close> among the sorted
  entries \<open>ys\<close>, between \<open>l\<close> and \<open>r\<close>; it is called with \<open>r\<close> the length of \<open>ys\<close>,
  so the entry read is always there.
\<close>

function bisect :: "('a \<Rightarrow> 'a \<Rightarrow> bool) \<Rightarrow> 'a \<Rightarrow> 'a list \<Rightarrow> nat \<Rightarrow> nat \<Rightarrow> nat" where
  "bisect lt pivot ys l r =
     (if l < r then
        (let p = l + (r - l) div 2 in
         if lt pivot (ys ! p) then bisect lt pivot ys l p
         else bisect lt pivot ys (p + 1) r)
      else l)"
  by pat_completeness auto
termination
  by (relation "measure (\<lambda>(lt, pivot, ys, l, r). r - l)") auto

declare bisect.simps [simp del]

definition binary_insert :: "('a \<Rightarrow> 'a \<Rightarrow> bool) \<Rightarrow> 'a \<Rightarrow> 'a list \<Rightarrow> 'a list" where
  "binary_insert lt pivot ys =
     (let l = bisect lt pivot ys 0 (length ys) in take l ys @ pivot # drop l ys)"

fun binarysort :: "('a \<Rightarrow> 'a \<Rightarrow> bool) \<Rightarrow> 'a list \<Rightarrow> 'a list \<Rightarrow> 'a list" where
  "binarysort lt ys [] = ys"
| "binarysort lt ys (pivot # rest) = binarysort lt (binary_insert lt pivot ys) rest"

definition list_sort :: "('a \<Rightarrow> 'a \<Rightarrow> bool) \<Rightarrow> 'a list \<Rightarrow> 'a list" where
  "list_sort lt xs =
     (if length xs < 2 then xs
      else case count_run lt xs of
        (n, descending) \<Rightarrow>
          binarysort lt (if descending then rev (take n xs) else take n xs) (drop n xs))"

text \<open>
  \<^verbatim>\<open>xs.sort(key=f, reverse=True)\<close> with float keys: CPython reverses the list, sorts
  it ascending by the keys and reverses the result, so that entries with equal keys keep
  their order.
\<close>

definition sort_reverse :: "('a \<Rightarrow> pyfloat) \<Rightarrow> 'a list \<Rightarrow> 'a list" where
  "sort_reverse f xs = rev (list_sort (\<lambda>a b. float_lt (f a) (f b)) (rev xs))"

subsection \<open>The server context, the effects and the response\<close>

text \<open>
  The globals \<^verbatim>\<open>model\<close> and \<^verbatim>\<open>model_name\<close>, set once by \<^verbatim>\<open>main\<close>. The field
  \<open>model\<close> is \<^verbatim>\<open>lambda pairs: model.predict(pairs).tolist()\<close>: a list of scores, or the
  exception it raises.
\<close>

record server =
  model :: "json list list \<Rightarrow> pyexc + pyfloat list"
  model_name :: string

text \<open>
  What a request does besides answering: the log lines (the number of documents and
  \<^verbatim>\<open>query[:50]\<close> for line 81, the line 97 without its numbers, \<^verbatim>\<open>str(e)\<close> for line 105)
  and the call of the scorer with its argument.
\<close>

datatype event =
    LogReranking nat json
  | Predict "json list list"
  | LogScores
  | LogError string

text \<open>
  \<^verbatim>\<open>jsonify({"error": m})\<close> and \<^verbatim>\<open>jsonify({"scores": s, "indices": i})\<close>, with the
  status (200 when the handler gives none).
\<close>

datatype body =
    ErrorBody string
  | RankingBody "pyfloat list" "nat list"

datatype response = Response nat body

fun status :: "response \<Rightarrow> nat" where
  "status (Response c b) = c"

fun scores_of :: "response \<Rightarrow> pyfloat list" where
  "scores_of (Response c (RankingBody ss ids)) = ss"
| "scores_of (Response c (ErrorBody m)) = []"

fun indices_of :: "response \<Rightarrow> nat list" where
  "indices_of (Response c (RankingBody ss ids)) = ids"
| "indices_of (Response c (ErrorBody m)) = []"

subsection \<open>The handler\<close>

text \<open>
  Lines 90 to 102: enumerate, sort by score descending, cut at \<^verbatim>\<open>top_n\<close> (twice, with
  the same result), compute \<^verbatim>\<open>max(scores)\<close> for the log (a ValueError on no scores) and
  answer.
\<close>

definition rank :: "json \<Rightarrow> pyfloat list \<Rightarrow> event list \<times> (pyexc + response)" where
  "rank top_n scores =
     (let indexed_scores = sort_reverse snd (enumerate 0 scores) in
      case slice_to top_n indexed_scores of
        Inl e \<Rightarrow> ([], Inl e)
      | Inr kept \<Rightarrow>
          if scores = [] then ([], Inl (ValueError ''max() arg is an empty sequence''))
          else ([LogScores], Inr (Response 200 (RankingBody (map snd kept) (map fst kept)))))"

text \<open>
  Lines 84 to 102, once the request is validated: log, build the pairs, call the scorer,
  rank.
\<close>

definition score_and_rank ::
  "server \<Rightarrow> json \<Rightarrow> json \<Rightarrow> nat \<Rightarrow> json \<Rightarrow> event list \<times> (pyexc + response)" where
  "score_and_rank srv query documents n top_n =
     (case subscript_to_50 query of
        Inl e \<Rightarrow> ([], Inl e)
      | Inr q50 \<Rightarrow>
          (case py_iter documents of
             Inl e \<Rightarrow> ([LogReranking n q50], Inl e)
           | Inr docs \<Rightarrow>
               (let pairs = map (\<lambda>doc. [query, doc]) docs in
                case model srv pairs of
                  Inl e \<Rightarrow> ([LogReranking n q50, Predict pairs], Inl e)
                | Inr scores \<Rightarrow>
                    (case rank top_n scores of
                       (evs, r) \<Rightarrow> ([LogReranking n q50, Predict pairs] @ evs, r)))))"

text \<open>
  Lines 66 to 102, the body of the \<^verbatim>\<open>try\<close>. The default of \<^verbatim>\<open>top_n\<close> is an argument
  of \<^verbatim>\<open>data.get\<close>, so \<^verbatim>\<open>len(documents)\<close> is computed on every request, before any
  field is checked.
\<close>

definition rerank_try :: "server \<Rightarrow> pyexc + json \<Rightarrow> event list \<times> (pyexc + response)" where
  "rerank_try srv got =
     (case got of
        Inl e \<Rightarrow> ([], Inl e)
      | Inr data \<Rightarrow>
          if \<not> truthy data then ([], Inr (Response 400 (ErrorBody ''No JSON data provided'')))
          else
            (case dict_get data ''query'' JNull of
               Inl e \<Rightarrow> ([], Inl e)
             | Inr query \<Rightarrow>
                 (case dict_get data ''documents'' (JList []) of
                    Inl e \<Rightarrow> ([], Inl e)
                  | Inr documents \<Rightarrow>
                      (case py_len documents of
                         Inl e \<Rightarrow> ([], Inl e)
                       | Inr n \<Rightarrow>
                           (case dict_get data ''top_n'' (JInt (int n)) of
                              Inl e \<Rightarrow> ([], Inl e)
                            | Inr top_n \<Rightarrow>
                                if \<not> truthy query then
                                  ([], Inr (Response 400 (ErrorBody ''Missing 'query' field'')))
                                else if \<not> truthy documents then
                                  ([], Inr (Response 400
                                     (ErrorBody ''Missing or empty 'documents' field'')))
                                else score_and_rank srv query documents n top_n)))))"

text \<open>
  Lines 104 to 106: every exception of the body is logged and answered with status 500 and
  its text.
\<close>

definition rerank :: "server \<Rightarrow> pyexc + json \<Rightarrow> event list \<times> response" where
  "rerank srv got =
     (case rerank_try srv got of
        (evs, Inr resp) \<Rightarrow> (evs, resp)
      | (evs, Inl e) \<Rightarrow> (evs @ [LogError (str_exc e)], Response 500 (ErrorBody (str_exc e))))"

subsection \<open>The order of a ranking, and example requests\<close>

text \<open>
  The order that the response is compared with: an entry (index, score) comes before
  another when its score is larger, or the scores are equal and its index is smaller.
\<close>

definition ranked_before :: "nat \<times> pyfloat \<Rightarrow> nat \<times> pyfloat \<Rightarrow> bool" where
  "ranked_before a b = (float_lt (snd b) (snd a) \<or> snd a = snd b \<and> fst a < fst b)"

text \<open>
  Stub servers whose scorer answers a fixed list of scores, two of them with a NaN, and
  one whose scorer raises; three documents, and a fourth; a request body with the query \<^verbatim>\<open>"cat"\<close>, these documents
  and a given \<^verbatim>\<open>top_n\<close>, and the same body without \<^verbatim>\<open>top_n\<close>.
\<close>

definition stub :: server where
  "stub = \<lparr>model = (\<lambda>pairs. Inr [Finite (9/10), Finite (1/10), Finite (8/10)]),
     model_name = ''stub''\<rparr>"

definition tie_stub :: server where
  "tie_stub = \<lparr>model = (\<lambda>pairs. Inr [Finite (1/2), Finite (9/10), Finite (1/2)]),
     model_name = ''tie_stub''\<rparr>"

definition nan_stub :: server where
  "nan_stub = \<lparr>model = (\<lambda>pairs. Inr [NaN, Finite 1, Finite 2]), model_name = ''nan_stub''\<rparr>"

definition nan_stub4 :: server where
  "nan_stub4 = \<lparr>model = (\<lambda>pairs. Inr [Finite 1, NaN, Finite 3, Finite 2]),
     model_name = ''nan_stub4''\<rparr>"

definition failing_stub :: server where
  "failing_stub = \<lparr>model = (\<lambda>pairs. Inl (Raised ''CUDA out of memory'')),
     model_name = ''failing_stub''\<rparr>"

text \<open>
  The text of werkzeug's \<^verbatim>\<open>BadRequest\<close>, the exception of
  \<^verbatim>\<open>request.get_json()\<close> on a body that is not JSON.
\<close>

definition bad_request_text :: string where
  "bad_request_text = ''400 Bad Request: The browser (or proxy) sent a request '' @
     ''that this server could not understand.''"

definition cat_docs :: "json list" where
  "cat_docs = [JStr ''a cat sat'', JStr ''a dog ran'', JStr ''feline on a mat'']"

definition cat_fields :: "json \<Rightarrow> (string \<times> json) list" where
  "cat_fields top_n =
     [(''query'', JStr ''cat''), (''documents'', JList cat_docs), (''top_n'', top_n)]"

definition four_fields :: "(string \<times> json) list" where
  "four_fields =
     [(''query'', JStr ''cat''), (''documents'', JList (cat_docs @ [JStr ''a bird flew'']))]"

definition cat_fields_no_top_n :: "(string \<times> json) list" where
  "cat_fields_no_top_n = [(''query'', JStr ''cat''), (''documents'', JList cat_docs)]"

section \<open>Auxiliary lemmas\<close>

subsection \<open>The sort\<close>

lemma bisect_stop: "\<not> l < r \<Longrightarrow> bisect lt pivot ys l r = l"
  by (subst bisect.simps) simp

lemma bisect_step:
  "l < r \<Longrightarrow> bisect lt pivot ys l r =
     (if lt pivot (ys ! (l + (r - l) div 2)) then bisect lt pivot ys l (l + (r - l) div 2)
      else bisect lt pivot ys (l + (r - l) div 2 + 1) r)"
  by (subst bisect.simps) (simp add: Let_def)


lemma float_lt_trans: "float_lt a b \<Longrightarrow> float_lt b c \<Longrightarrow> float_lt a c"
  by (cases a; cases b; cases c) auto

lemma float_lt_irrefl: "\<not> float_lt a a"
  by (cases a) auto

lemma float_lt_asym: "float_lt a b \<Longrightarrow> \<not> float_lt b a"
  by (cases a; cases b) auto

lemma float_lt_total:
  "a \<noteq> NaN \<Longrightarrow> b \<noteq> NaN \<Longrightarrow> \<not> float_lt a b \<Longrightarrow> float_lt b a \<or> a = b"
  by (cases a; cases b) auto

lemma ranked_before_trans:
  "ranked_before a b \<Longrightarrow> ranked_before b c \<Longrightarrow> ranked_before a c"
  unfolding ranked_before_def using float_lt_trans by (metis order_less_trans)

lemma ranked_before_later:
  assumes "\<not> float_lt (snd x) (snd y)" and "snd x \<noteq> NaN" and "snd y \<noteq> NaN"
    and "fst x < fst y"
  shows "ranked_before x y"
  using float_lt_total[OF assms(2,3,1)] assms(4) by (auto simp: ranked_before_def)

lemma bisect_post:
  assumes "\<And>i j. i \<le> j \<Longrightarrow> j < length ys \<Longrightarrow> lt x (ys ! i) \<Longrightarrow> lt x (ys ! j)"
    and "l \<le> r" and "r \<le> length ys"
    and "\<forall>i<l. \<not> lt x (ys ! i)"
    and "\<forall>i. r \<le> i \<and> i < length ys \<longrightarrow> lt x (ys ! i)"
  shows "bisect lt x ys l r \<le> length ys
     \<and> (\<forall>i<bisect lt x ys l r. \<not> lt x (ys ! i))
     \<and> (\<forall>i. bisect lt x ys l r \<le> i \<and> i < length ys \<longrightarrow> lt x (ys ! i))"
  using assms
proof (induction lt x ys l r rule: bisect.induct)
  case (1 lt pivot ys l r)
  show ?case
  proof (cases "l < r")
    case False
    then have "bisect lt pivot ys l r = l" by (rule bisect_stop)
    moreover have "l = r" using False "1.prems"(2) by simp
    ultimately show ?thesis using "1.prems"(3-5) by simp
  next
    case True
    define p where "p = l + (r - l) div 2"
    have p: "l \<le> p" "p < r" using True by (simp_all add: p_def)
    show ?thesis
    proof (cases "lt pivot (ys ! p)")
      case lt: True
      have eq: "bisect lt pivot ys l r = bisect lt pivot ys l p"
        using True lt by (simp add: bisect_step p_def)
      have upper: "\<forall>i. p \<le> i \<and> i < length ys \<longrightarrow> lt pivot (ys ! i)"
        using "1.prems"(1) lt by blast
      have "p \<le> length ys" using p "1.prems"(3) by simp
      from "1.IH"(1)[OF True p_def lt "1.prems"(1) p(1) this "1.prems"(4) upper]
      show ?thesis unfolding eq by assumption
    next
      case nlt: False
      have eq: "bisect lt pivot ys l r = bisect lt pivot ys (p + 1) r"
        using True nlt by (simp add: bisect_step p_def)
      have lower: "\<forall>i<p + 1. \<not> lt pivot (ys ! i)"
      proof (intro allI impI)
        fix i assume "i < p + 1"
        then have "i \<le> p" by simp
        moreover have "p < length ys" using p "1.prems"(3) by simp
        ultimately show "\<not> lt pivot (ys ! i)" using "1.prems"(1) nlt by blast
      qed
      have "p + 1 \<le> r" using p by simp
      from "1.IH"(2)[OF True p_def nlt "1.prems"(1) this "1.prems"(3) lower "1.prems"(5)]
      show ?thesis unfolding eq by assumption
    qed
  qed
qed

lemma mset_binary_insert: "mset (binary_insert lt x ys) = add_mset x (mset ys)"
proof -
  have "mset (take l ys) + mset (drop l ys) = mset ys" for l
    by (simp flip: mset_append)
  then show ?thesis by (simp add: binary_insert_def Let_def)
qed

lemma mset_binarysort: "mset (binarysort lt ys rest) = mset ys + mset rest"
  by (induction rest arbitrary: ys) (simp_all add: mset_binary_insert)

lemma mset_list_sort: "mset (list_sort lt xs) = mset xs"
proof -
  have "mset (take n xs) + mset (drop n xs) = mset xs" for n
    by (simp flip: mset_append)
  then show ?thesis
    by (simp add: list_sort_def mset_binarysort split: prod.splits)
qed

lemma mset_sort_reverse: "mset (sort_reverse f xs) = mset xs"
  by (simp add: sort_reverse_def mset_list_sort)

lemma set_sort_reverse: "set (sort_reverse f xs) = set xs"
  using mset_sort_reverse[of f xs] by (rule mset_eq_setD)

lemma length_sort_reverse: "length (sort_reverse f xs) = length xs"
  using mset_sort_reverse[of f xs] by (rule mset_eq_length)

lemma sorted_binary_insert:
  assumes "sorted_wrt (\<lambda>a b. ranked_before b a) ys"
    and "snd x \<noteq> NaN" and "\<forall>y\<in>set ys. snd y \<noteq> NaN"
    and "\<forall>y\<in>set ys. fst x < fst y"
  shows "sorted_wrt (\<lambda>a b. ranked_before b a) (binary_insert (\<lambda>a b. float_lt (snd a) (snd b)) x ys)"
proof -
  let ?lt = "\<lambda>a b. float_lt (snd a) (snd b)"
  define k where "k = bisect ?lt x ys 0 (length ys)"
  have nth: "ranked_before (ys ! j) (ys ! i)" if "i < j" "j < length ys" for i j
    using assms(1) that by (simp add: sorted_wrt_iff_nth_less)
  have mono: "?lt x (ys ! j)" if "i \<le> j" "j < length ys" "?lt x (ys ! i)" for i j
  proof (cases "i = j")
    case True
    then show ?thesis using that by simp
  next
    case False
    then have "ranked_before (ys ! j) (ys ! i)" using that nth by simp
    then show ?thesis using that(3) float_lt_trans by (auto simp: ranked_before_def)
  qed
  have post: "k \<le> length ys \<and> (\<forall>i<k. \<not> ?lt x (ys ! i))
       \<and> (\<forall>i. k \<le> i \<and> i < length ys \<longrightarrow> ?lt x (ys ! i))"
    unfolding k_def
  proof (rule bisect_post[where lt = ?lt and x = x and ys = ys and l = 0 and r = "length ys"])
    show "?lt x (ys ! j)" if "i \<le> j" "j < length ys" "?lt x (ys ! i)" for i j
      using that by (rule mono)
  qed auto
  have before: "ranked_before x a" if "a \<in> set (take k ys)" for a
  proof -
    from that obtain i where "i < length (take k ys)" "take k ys ! i = a"
      unfolding in_set_conv_nth by blast
    then have i: "i < k" "i < length ys" "ys ! i = a" by simp_all
    have "\<not> ?lt x (ys ! i)" using post i(1) by blast
    then have "\<not> float_lt (snd x) (snd a)" unfolding i(3) .
    moreover have "a \<in> set ys" using i(2,3) nth_mem by blast
    then have "snd a \<noteq> NaN" "fst x < fst a" using assms(3,4) by blast+
    ultimately show ?thesis using assms(2) by (intro ranked_before_later)
  qed
  have after: "ranked_before b x" if "b \<in> set (drop k ys)" for b
  proof -
    from that obtain i where "i < length (drop k ys)" "drop k ys ! i = b"
      unfolding in_set_conv_nth by blast
    then have i: "k + i < length ys" "ys ! (k + i) = b" using post by simp_all
    have "?lt x (ys ! (k + i))" using post i(1) by simp
    then show ?thesis unfolding i(2) by (simp add: ranked_before_def)
  qed
  have "sorted_wrt (\<lambda>a b. ranked_before b a) (take k ys @ drop k ys)"
    using assms(1) by simp
  then have parts: "sorted_wrt (\<lambda>a b. ranked_before b a) (take k ys)"
    "sorted_wrt (\<lambda>a b. ranked_before b a) (drop k ys)"
    "\<forall>a\<in>set (take k ys). \<forall>b\<in>set (drop k ys). ranked_before b a"
    unfolding sorted_wrt_append by blast+
  have "sorted_wrt (\<lambda>a b. ranked_before b a) (x # drop k ys)"
    using parts(2) after by simp
  then have "sorted_wrt (\<lambda>a b. ranked_before b a) (take k ys @ x # drop k ys)"
    unfolding sorted_wrt_append using parts(1,3) before by simp
  then show ?thesis by (simp only: binary_insert_def k_def Let_def)
qed

lemma set_binary_insert: "set (binary_insert lt x ys) = insert x (set ys)"
  using mset_binary_insert[of lt x ys] by (metis set_mset_add_mset_insert set_mset_mset)

lemma sorted_binarysort:
  assumes "sorted_wrt (\<lambda>a b. ranked_before b a) ys"
    and "\<forall>y\<in>set ys \<union> set rest. snd y \<noteq> NaN"
    and "sorted_wrt (\<lambda>a b. fst b < fst a) rest"
    and "\<forall>y\<in>set ys. \<forall>x\<in>set rest. fst x < fst y"
  shows "sorted_wrt (\<lambda>a b. ranked_before b a)
     (binarysort (\<lambda>a b. float_lt (snd a) (snd b)) ys rest)"
  using assms
proof (induction rest arbitrary: ys)
  case Nil
  then show ?case by simp
next
  case (Cons x rest)
  let ?ys = "binary_insert (\<lambda>a b. float_lt (snd a) (snd b)) x ys"
  have "sorted_wrt (\<lambda>a b. ranked_before b a) ?ys"
    using Cons.prems by (intro sorted_binary_insert) auto
  moreover have "\<forall>y\<in>set ?ys \<union> set rest. snd y \<noteq> NaN"
    using Cons.prems(2) by (auto simp: set_binary_insert)
  moreover have "sorted_wrt (\<lambda>a b. fst b < fst a) rest"
    using Cons.prems(3) by simp
  moreover have "\<forall>y\<in>set ?ys. \<forall>z\<in>set rest. fst z < fst y"
    using Cons.prems(3,4) by (auto simp: set_binary_insert)
  ultimately show ?case using Cons.IH[of ?ys] by simp
qed

lemma sorted_run_ascending:
  assumes "sorted_wrt (\<lambda>a b. fst b < fst a) (prev # xs)"
    and "\<forall>y\<in>set (prev # xs). snd y \<noteq> NaN"
  shows "sorted_wrt (\<lambda>a b. ranked_before b a)
     (prev # take (run_ascending (\<lambda>a b. float_lt (snd a) (snd b)) prev xs) xs)"
  using assms
proof (induction xs arbitrary: prev)
  case Nil
  then show ?case by simp
next
  case (Cons x xs)
  show ?case
  proof (cases "float_lt (snd x) (snd prev)")
    case True
    then show ?thesis by simp
  next
    case False
    let ?run = "take (run_ascending (\<lambda>a b. float_lt (snd a) (snd b)) x xs) xs"
    have ih: "sorted_wrt (\<lambda>a b. ranked_before b a) (x # ?run)"
      using Cons.prems by (intro Cons.IH) auto
    have first: "ranked_before x prev"
      using False Cons.prems by (intro ranked_before_later) auto
    have "ranked_before z prev" if "z \<in> set ?run" for z
    proof -
      have "ranked_before z x" using ih that by simp
      then show ?thesis using first by (rule ranked_before_trans)
    qed
    then show ?thesis using False ih first by simp
  qed
qed

lemma sorted_run_descending:
  "sorted_wrt ranked_before
     (prev # take (run_descending (\<lambda>a b. float_lt (snd a) (snd b)) prev xs) xs)"
proof (induction xs arbitrary: prev)
  case Nil
  then show ?case by simp
next
  case (Cons x xs)
  show ?case
  proof (cases "float_lt (snd x) (snd prev)")
    case False
    then show ?thesis by simp
  next
    case True
    let ?run = "take (run_descending (\<lambda>a b. float_lt (snd a) (snd b)) x xs) xs"
    have ih: "sorted_wrt ranked_before (x # ?run)" by (rule Cons.IH)
    have first: "ranked_before prev x" using True by (simp add: ranked_before_def)
    have "ranked_before prev z" if "z \<in> set ?run" for z
    proof -
      have "ranked_before x z" using ih that by simp
      with first show ?thesis by (rule ranked_before_trans)
    qed
    then show ?thesis using True ih first by simp
  qed
qed

lemma count_run_Cons:
  "count_run lt (a # xs) =
     (if xs = [] then (1, False)
      else if lt (hd xs) a then (1 + run_descending lt a xs, True)
      else (1 + run_ascending lt a xs, False))"
  by (cases xs) simp_all

lemma sorted_list_sort:
  assumes "sorted_wrt (\<lambda>a b. fst b < fst a) xs" and "\<forall>y\<in>set xs. snd y \<noteq> NaN"
  shows "sorted_wrt (\<lambda>a b. ranked_before b a)
     (list_sort (\<lambda>a b. float_lt (snd a) (snd b)) xs)"
proof (cases xs)
  case Nil
  then show ?thesis by (simp add: list_sort_def)
next
  case (Cons a ys)
  let ?lt = "\<lambda>a b. float_lt (snd a) (snd b)"
  show ?thesis
  proof (cases "ys = []")
    case True
    then show ?thesis using Cons by (simp add: list_sort_def)
  next
    case False
    obtain n d where nd: "count_run ?lt xs = (n, d)" by (cases "count_run ?lt xs")
    let ?run = "if d then rev (take n xs) else take n xs"
    have run: "sorted_wrt (\<lambda>a b. ranked_before b a) ?run"
    proof (cases "?lt (hd ys) a")
      case True
      then have "n = 1 + run_descending ?lt a ys" "d"
        using nd False Cons by (simp_all add: count_run_Cons)
      moreover have "sorted_wrt (\<lambda>a b. ranked_before b a)
          (rev (a # take (run_descending ?lt a ys) ys))"
        unfolding sorted_wrt_rev by (rule sorted_run_descending)
      ultimately show ?thesis using Cons by simp
    next
      case nlt: False
      then have "n = 1 + run_ascending ?lt a ys" "\<not> d"
        using nd False Cons by (simp_all add: count_run_Cons)
      then show ?thesis
        using sorted_run_ascending[of a ys] assms Cons by simp
    qed
    have parts: "sorted_wrt (\<lambda>a b. fst b < fst a) (take n xs @ drop n xs)"
      using assms(1) by simp
    have "sorted_wrt (\<lambda>a b. ranked_before b a) (binarysort ?lt ?run (drop n xs))"
    proof (rule sorted_binarysort[OF run])
      show "\<forall>y\<in>set ?run \<union> set (drop n xs). snd y \<noteq> NaN"
        using assms(2) by (auto dest: in_set_takeD in_set_dropD)
      show "sorted_wrt (\<lambda>a b. fst b < fst a) (drop n xs)"
        using parts unfolding sorted_wrt_append by simp
      show "\<forall>y\<in>set ?run. \<forall>x\<in>set (drop n xs). fst x < fst y"
        using parts unfolding sorted_wrt_append by auto
    qed
    moreover have "\<not> length xs < 2" using Cons False by (cases ys) simp_all
    ultimately show ?thesis using nd by (simp add: list_sort_def)
  qed
qed

lemma sorted_wrt_fst_enumerate: "sorted_wrt (\<lambda>a b. fst a < fst b) (enumerate n xs)"
  by (induction xs arbitrary: n) (auto simp: in_set_enumerate_eq)

lemma sorted_wrt_sort_reverse:
  assumes "NaN \<notin> set scores"
  shows "sorted_wrt ranked_before (sort_reverse snd (enumerate 0 scores))"
proof -
  have "snd y \<in> set scores" if "y \<in> set (enumerate 0 scores)" for y
    using that by (auto simp: in_set_enumerate_eq) (metis nth_mem)
  then have nn: "\<forall>y\<in>set (rev (enumerate 0 scores)). snd y \<noteq> NaN"
    using assms by auto
  have dec: "sorted_wrt (\<lambda>a b. fst b < fst a) (rev (enumerate 0 scores))"
    by (simp add: sorted_wrt_rev sorted_wrt_fst_enumerate)
  have "sorted_wrt (\<lambda>a b. ranked_before b a)
      (list_sort (\<lambda>a b. float_lt (snd a) (snd b)) (rev (enumerate 0 scores)))"
    using dec nn by (rule sorted_list_sort)
  then show ?thesis by (simp add: sort_reverse_def sorted_wrt_rev)
qed

lemma distinct_fst_sort_reverse:
  "distinct (map fst (sort_reverse snd (enumerate 0 scores)))"
proof -
  have "mset (map fst (sort_reverse snd (enumerate 0 scores))) =
      mset (map fst (enumerate 0 scores))"
    using mset_sort_reverse[of snd "enumerate 0 scores"] by (metis mset_map)
  then have "distinct (map fst (sort_reverse snd (enumerate 0 scores))) =
      distinct (map fst (enumerate 0 scores))"
    by (rule mset_eq_imp_distinct_iff)
  then show ?thesis by simp
qed

lemma ranked_before_nth:
  assumes "sorted_wrt ranked_before xs" and "i < j" and "j < length (take m xs)"
  shows "ranked_before (take m xs ! i) (take m xs ! j)"
proof -
  have "sorted_wrt ranked_before (take m xs)"
    using assms(1) by (rule sorted_wrt_take)
  then show ?thesis using assms(2,3) by (simp only: sorted_wrt_iff_nth_less)
qed

subsection \<open>The slice\<close>

lemma slice_int_take: "\<exists>m. slice_int n xs = take m xs"
  by (auto simp: slice_int_def)

lemma length_slice_int_nonneg:
  "0 \<le> n \<Longrightarrow> int (length (slice_int n xs)) = min n (int (length xs))"
  by (auto simp: slice_int_def)

lemma slice_to_absent_or_int:
  assumes "map_of kvs ''top_n'' = None \<or> (\<exists>n. map_of kvs ''top_n'' = Some (JInt n))"
  shows "\<exists>m. slice_to (case map_of kvs ''top_n'' of None \<Rightarrow> JInt d | Some v \<Rightarrow> v) xs
     = Inr (take m xs)"
  using assms slice_int_take[of _ xs] by (auto split: option.splits)

subsection \<open>The handler on a request with a query and documents\<close>

lemma rerank_try_valid:
  assumes "map_of kvs ''query'' = Some (JStr q)" and "q \<noteq> []"
    and "map_of kvs ''documents'' = Some (JList docs)" and "docs \<noteq> []"
  shows "rerank_try srv (Inr (JDict kvs)) =
     score_and_rank srv (JStr q) (JList docs) (length docs)
       (case map_of kvs ''top_n'' of None \<Rightarrow> JInt (int (length docs)) | Some v \<Rightarrow> v)"
proof -
  have "kvs \<noteq> []" using assms(1) by auto
  then show ?thesis using assms by (simp add: rerank_try_def)
qed

lemma score_and_rank_scored:
  assumes "model srv (map (\<lambda>doc. [JStr q, doc]) docs) = Inr scores"
  shows "score_and_rank srv (JStr q) (JList docs) n top_n =
     (case rank top_n scores of
        (evs, r) \<Rightarrow> ([LogReranking n (JStr (take 50 q)),
                      Predict (map (\<lambda>doc. [JStr q, doc]) docs)] @ evs, r))"
  using assms by (simp add: score_and_rank_def)

lemma score_and_rank_raised:
  assumes "model srv (map (\<lambda>doc. [JStr q, doc]) docs) = Inl e"
  shows "score_and_rank srv (JStr q) (JList docs) n top_n =
     ([LogReranking n (JStr (take 50 q)), Predict (map (\<lambda>doc. [JStr q, doc]) docs)], Inl e)"
  using assms by (simp add: score_and_rank_def)

lemma rank_kept:
  assumes "scores \<noteq> []"
    and "slice_to top_n (sort_reverse snd (enumerate 0 scores)) = Inr kept"
  shows "rank top_n scores =
     ([LogScores], Inr (Response 200 (RankingBody (map snd kept) (map fst kept))))"
  using assms by (simp add: rank_def)

lemma rerank_ranking:
  assumes "map_of kvs ''query'' = Some (JStr q)" and "q \<noteq> []"
    and "map_of kvs ''documents'' = Some (JList docs)" and "docs \<noteq> []"
    and "model srv (map (\<lambda>doc. [JStr q, doc]) docs) = Inr scores" and "scores \<noteq> []"
    and "slice_to (case map_of kvs ''top_n'' of None \<Rightarrow> JInt (int (length docs)) | Some v \<Rightarrow> v)
           (sort_reverse snd (enumerate 0 scores)) = Inr kept"
  shows "rerank srv (Inr (JDict kvs)) =
     ([LogReranking (length docs) (JStr (take 50 q)),
       Predict (map (\<lambda>doc. [JStr q, doc]) docs), LogScores],
      Response 200 (RankingBody (map snd kept) (map fst kept)))"
  using assms
  by (simp add: rerank_def rerank_try_valid score_and_rank_scored rank_kept)

lemma rank_status: "rank top_n scores = (evs, Inr r) \<Longrightarrow> status r = 200"
  by (auto simp: rank_def Let_def split: sum.splits if_splits)

lemma score_and_rank_status:
  "score_and_rank srv query documents n top_n = (evs, Inr r) \<Longrightarrow> status r = 200"
  by (auto simp: score_and_rank_def Let_def split: sum.splits prod.splits dest: rank_status)

lemma rerank_get_json_raised:
  "rerank srv (Inl e) = ([LogError (str_exc e)], Response 500 (ErrorBody (str_exc e)))"
  by (simp add: rerank_def rerank_try_def)

lemma rerank_no_data:
  "\<not> truthy data \<Longrightarrow>
     rerank srv (Inr data) = ([], Response 400 (ErrorBody ''No JSON data provided''))"
  by (simp add: rerank_def rerank_try_def)

lemmas rerank_unfold =
  rerank_def rerank_try_def score_and_rank_def rank_def sort_reverse_def list_sort_def
  binary_insert_def bisect_stop bisect_step enumerate_eq_zip slice_int_def quoted_def

section \<open>Properties of the handler\<close>

text \<open>
  In the theorems below a request with a query and documents is a body \<open>JDict kvs\<close> whose
  field \<^verbatim>\<open>query\<close> is a non-empty string \<open>q\<close> and whose field \<^verbatim>\<open>documents\<close> is a
  non-empty list \<open>docs\<close>; the scorer is called with the pairs
  \<open>map (\<lambda>doc. [JStr q, doc]) docs\<close>.
\<close>

text \<open>
  C1. For a request with a non-empty query and non-empty documents, whose \<^verbatim>\<open>top_n\<close>
  is absent or an integer, and for every non-empty list of scores without NaN that the
  scorer returns, the handler answers 200 with parallel lists of scores and indices; the
  scores are in descending order (\<^verbatim>\<open>scores[i] >= scores[j]\<close> for \<^verbatim>\<open>i < j\<close>), and of
  two entries with equal scores the one with the smaller original index comes first.
\<close>

theorem rerank_sorted_descending_stable:
  assumes "map_of kvs ''query'' = Some (JStr q)" and "q \<noteq> []"
    and "map_of kvs ''documents'' = Some (JList docs)" and "docs \<noteq> []"
    and "map_of kvs ''top_n'' = None \<or> (\<exists>n. map_of kvs ''top_n'' = Some (JInt n))"
    and "model srv (map (\<lambda>doc. [JStr q, doc]) docs) = Inr scores" and "scores \<noteq> []"
    and "NaN \<notin> set scores"
  shows "\<exists>ss ids. snd (rerank srv (Inr (JDict kvs))) = Response 200 (RankingBody ss ids)
     \<and> length ids = length ss
     \<and> (\<forall>i j. i < j \<and> j < length ss \<longrightarrow>
           float_ge (ss ! i) (ss ! j) \<and> (ss ! i = ss ! j \<longrightarrow> ids ! i < ids ! j))"
proof -
  let ?sorted = "sort_reverse snd (enumerate 0 scores)"
  obtain m where m:
    "slice_to (case map_of kvs ''top_n'' of None \<Rightarrow> JInt (int (length docs)) | Some v \<Rightarrow> v)
       ?sorted = Inr (take m ?sorted)"
    using slice_to_absent_or_int[OF assms(5)] by blast
  let ?kept = "take m ?sorted"
  have resp: "snd (rerank srv (Inr (JDict kvs))) =
      Response 200 (RankingBody (map snd ?kept) (map fst ?kept))"
    using rerank_ranking[OF assms(1-4) assms(6,7) m] by simp
  have ord: "ranked_before (?kept ! i) (?kept ! j)" if "i < j" "j < length ?kept" for i j
    using ranked_before_nth[OF sorted_wrt_sort_reverse[OF assms(8)] that] .
  have num: "snd (?kept ! i) \<noteq> NaN" if "i < length ?kept" for i
  proof -
    have "?kept ! i \<in> set ?kept" using that by (rule nth_mem)
    then have "?kept ! i \<in> set (enumerate 0 scores)"
      using set_take_subset[of m ?sorted] by (auto simp: set_sort_reverse)
    then have "snd (?kept ! i) \<in> set scores"
      by (auto simp: in_set_enumerate_eq) (metis nth_mem)
    then show ?thesis using assms(8) by metis
  qed
  have "float_ge (map snd ?kept ! i) (map snd ?kept ! j) \<and>
        (map snd ?kept ! i = map snd ?kept ! j \<longrightarrow> map fst ?kept ! i < map fst ?kept ! j)"
    if "i < j" "j < length (map snd ?kept)" for i j
  proof -
    have len: "j < length ?kept" "i < length ?kept" using that by simp_all
    have rb: "ranked_before (?kept ! i) (?kept ! j)" using ord[OF that(1) len(1)] .
    have nlt: "\<not> float_lt (snd (?kept ! i)) (snd (?kept ! j))"
      using rb float_lt_asym[of "snd (?kept ! j)" "snd (?kept ! i)"]
        float_lt_irrefl[of "snd (?kept ! j)"]
      by (auto simp: ranked_before_def)
    have tie: "fst (?kept ! i) < fst (?kept ! j)" if "snd (?kept ! i) = snd (?kept ! j)"
      using rb that float_lt_irrefl[of "snd (?kept ! j)"] by (auto simp: ranked_before_def)
    show ?thesis
      using nlt tie num[OF len(1)] num[OF len(2)] len
      by (simp add: float_ge_def del: nth_take)
  qed
  then show ?thesis using resp by auto
qed

theorem rerank_sorted_descending_stable_witness:
  "snd (rerank tie_stub (Inr (JDict (cat_fields (JInt 3))))) =
     Response 200 (RankingBody [Finite (9/10), Finite (1/2), Finite (1/2)] [1, 0, 2])
   \<and> (\<exists>ss ids. snd (rerank tie_stub (Inr (JDict (cat_fields (JInt 3))))) =
         Response 200 (RankingBody ss ids)
     \<and> length ids = length ss
     \<and> (\<forall>i j. i < j \<and> j < length ss \<longrightarrow>
           float_ge (ss ! i) (ss ! j) \<and> (ss ! i = ss ! j \<longrightarrow> ids ! i < ids ! j)))"
proof -
  have ex: "snd (rerank tie_stub (Inr (JDict (cat_fields (JInt 3))))) =
     Response 200 (RankingBody [Finite (9/10), Finite (1/2), Finite (1/2)] [1, 0, 2])"
    by (simp add: rerank_unfold tie_stub_def cat_fields_def cat_docs_def)
  have "model tie_stub (map (\<lambda>doc. [JStr ''cat'', doc]) cat_docs) =
      Inr [Finite (1/2), Finite (9/10), Finite (1/2)]"
    by (simp add: tie_stub_def)
  from rerank_sorted_descending_stable[of "cat_fields (JInt 3)" "''cat''" cat_docs tie_stub,
      OF _ _ _ _ _ this]
  show ?thesis using ex by (simp add: cat_fields_def cat_docs_def)
qed

text \<open>
  A score that is NaN breaks the order, since every comparison with it is false. With
  the scores NaN, 1 and 2 the response lists NaN, 2 and 1, and \<^verbatim>\<open>scores[0] >= scores[1]\<close>
  does not hold. With the scores 1, NaN, 3 and 2 the list is one ascending run for the
  sort and is answered as it came: the finite scores 1 and 3 are out of order as well.
\<close>

theorem rerank_nan_score_counterexample:
  "snd (rerank nan_stub (Inr (JDict cat_fields_no_top_n))) =
     Response 200 (RankingBody [NaN, Finite 2, Finite 1] [0, 2, 1])
   \<and> \<not> float_ge (scores_of (snd (rerank nan_stub (Inr (JDict cat_fields_no_top_n)))) ! 0)
         (scores_of (snd (rerank nan_stub (Inr (JDict cat_fields_no_top_n)))) ! 1)
   \<and> snd (rerank nan_stub4 (Inr (JDict four_fields))) =
     Response 200 (RankingBody [Finite 1, NaN, Finite 3, Finite 2] [0, 1, 2, 3])
   \<and> \<not> float_ge (scores_of (snd (rerank nan_stub4 (Inr (JDict four_fields)))) ! 0)
         (scores_of (snd (rerank nan_stub4 (Inr (JDict four_fields)))) ! 2)"
  by (simp add: rerank_unfold nan_stub_def nan_stub4_def cat_fields_no_top_n_def
      four_fields_def cat_docs_def float_ge_def)

text \<open>
  C2. For a request with a non-empty query and non-empty documents, whose \<^verbatim>\<open>top_n\<close>
  is absent or an integer that is not negative, and a scorer that returns one score for each
  document, the handler answers 200 and the lists of indices and of scores have the same
  length, the minimum of \<^verbatim>\<open>top_n\<close> and the number of documents, where an absent
  \<^verbatim>\<open>top_n\<close> stands for the number of documents. So a \<^verbatim>\<open>top_n\<close> above the number of
  documents gives one entry for each document, and \<^verbatim>\<open>top_n = 0\<close> gives empty lists.
\<close>

theorem rerank_length_top_n:
  assumes "map_of kvs ''query'' = Some (JStr q)" and "q \<noteq> []"
    and "map_of kvs ''documents'' = Some (JList docs)" and "docs \<noteq> []"
    and "model srv (map (\<lambda>doc. [JStr q, doc]) docs) = Inr scores"
    and "length scores = length docs"
    and "map_of kvs ''top_n'' = None \<and> n = int (length docs)
         \<or> map_of kvs ''top_n'' = Some (JInt n) \<and> 0 \<le> n"
  shows "status (snd (rerank srv (Inr (JDict kvs)))) = 200
     \<and> int (length (indices_of (snd (rerank srv (Inr (JDict kvs)))))) = min n (int (length docs))
     \<and> length (scores_of (snd (rerank srv (Inr (JDict kvs))))) =
         length (indices_of (snd (rerank srv (Inr (JDict kvs)))))"
proof -
  let ?sorted = "sort_reverse snd (enumerate 0 scores)"
  have ne: "scores \<noteq> []" using assms(4,6) by auto
  have nn: "0 \<le> n" using assms(7) by auto
  have sl:
    "slice_to (case map_of kvs ''top_n'' of None \<Rightarrow> JInt (int (length docs)) | Some v \<Rightarrow> v)
       ?sorted = Inr (slice_int n ?sorted)"
    using assms(7) by auto
  have resp: "snd (rerank srv (Inr (JDict kvs))) =
      Response 200 (RankingBody (map snd (slice_int n ?sorted)) (map fst (slice_int n ?sorted)))"
    using rerank_ranking[OF assms(1-5) ne sl] by simp
  have "int (length (slice_int n ?sorted)) = min n (int (length docs))"
    using length_slice_int_nonneg[OF nn, of ?sorted] assms(6) by (simp add: length_sort_reverse)
  then show ?thesis using resp by simp
qed

theorem rerank_length_top_n_witness:
  "indices_of (snd (rerank stub (Inr (JDict (cat_fields (JInt 5)))))) = [0, 2, 1]
   \<and> indices_of (snd (rerank stub (Inr (JDict (cat_fields (JInt 0)))))) = []
   \<and> indices_of (snd (rerank stub (Inr (JDict cat_fields_no_top_n)))) = [0, 2, 1]
   \<and> int (length (indices_of (snd (rerank stub (Inr (JDict (cat_fields (JInt 5)))))))) =
       min 5 (int (length cat_docs))"
proof -
  have m: "model stub (map (\<lambda>doc. [JStr ''cat'', doc]) cat_docs) = Inr [Finite (9/10), Finite (1/10), Finite (8/10)]"
    by (simp add: stub_def)
  have "int (length (indices_of (snd (rerank stub (Inr (JDict (cat_fields (JInt 5)))))))) =
       min 5 (int (length cat_docs))"
    using rerank_length_top_n[of "cat_fields (JInt 5)" "''cat''" cat_docs stub _ 5, OF _ _ _ _ m]
    by (simp add: cat_fields_def cat_docs_def)
  then show ?thesis
    by (simp add: rerank_unfold stub_def cat_fields_def cat_fields_no_top_n_def cat_docs_def)
qed

text \<open>
  A negative \<^verbatim>\<open>top_n\<close> is not clamped to 0: the slice \<^verbatim>\<open>[:-1]\<close> drops the last
  entry. With three documents and \<^verbatim>\<open>top_n = -1\<close> the response has two entries, which is
  neither \<^verbatim>\<open>min(top_n, len(documents))\<close> nor the 0 of a clamped \<^verbatim>\<open>top_n\<close>.
\<close>

theorem rerank_length_negative_top_n_counterexample:
  "indices_of (snd (rerank stub (Inr (JDict (cat_fields (JInt (- 1))))))) = [0, 2]
   \<and> scores_of (snd (rerank stub (Inr (JDict (cat_fields (JInt (- 1))))))) = [Finite (9/10), Finite (8/10)]
   \<and> int (length (indices_of (snd (rerank stub (Inr (JDict (cat_fields (JInt (- 1))))))))) \<noteq>
       min (- 1) (int (length cat_docs))
   \<and> int (length (indices_of (snd (rerank stub (Inr (JDict (cat_fields (JInt (- 1))))))))) \<noteq>
       min (max 0 (- 1)) (int (length cat_docs))"
  by (simp add: rerank_unfold stub_def cat_fields_def cat_docs_def)

text \<open>
  C3. For a request with a non-empty query and non-empty documents, whose \<^verbatim>\<open>top_n\<close>
  is absent or an integer, and a scorer that returns one score for each document, the
  handler answers 200; every index of the response is below the number of documents, no
  index occurs twice, and the score at a position of the response is the score that the
  scorer gave to the pair of the query and the document at the index of that position.
\<close>

theorem rerank_indices_original_positions:
  assumes "map_of kvs ''query'' = Some (JStr q)" and "q \<noteq> []"
    and "map_of kvs ''documents'' = Some (JList docs)" and "docs \<noteq> []"
    and "map_of kvs ''top_n'' = None \<or> (\<exists>n. map_of kvs ''top_n'' = Some (JInt n))"
    and "model srv (map (\<lambda>doc. [JStr q, doc]) docs) = Inr scores"
    and "length scores = length docs"
  shows "\<exists>ss ids. snd (rerank srv (Inr (JDict kvs))) = Response 200 (RankingBody ss ids)
     \<and> length ss = length ids
     \<and> (\<forall>k\<in>set ids. k < length docs)
     \<and> distinct ids
     \<and> (\<forall>i<length ids. ss ! i = scores ! (ids ! i)
           \<and> map (\<lambda>doc. [JStr q, doc]) docs ! (ids ! i) = [JStr q, docs ! (ids ! i)])"
proof -
  let ?sorted = "sort_reverse snd (enumerate 0 scores)"
  have ne: "scores \<noteq> []" using assms(4,7) by auto
  obtain m where m:
    "slice_to (case map_of kvs ''top_n'' of None \<Rightarrow> JInt (int (length docs)) | Some v \<Rightarrow> v)
       ?sorted = Inr (take m ?sorted)"
    using slice_to_absent_or_int[OF assms(5)] by blast
  let ?kept = "take m ?sorted"
  have resp: "snd (rerank srv (Inr (JDict kvs))) =
      Response 200 (RankingBody (map snd ?kept) (map fst ?kept))"
    using rerank_ranking[OF assms(1-4) assms(6) ne m] by simp
  have mem: "fst p < length docs \<and> snd p = scores ! fst p" if "p \<in> set ?kept" for p
  proof -
    have "p \<in> set (enumerate 0 scores)"
      using that set_take_subset[of m ?sorted] by (auto simp: set_sort_reverse)
    then show ?thesis using assms(7) by (auto simp: in_set_enumerate_eq)
  qed
  have range: "\<forall>k\<in>set (map fst ?kept). k < length docs"
    using mem by auto
  have "distinct (map fst ?sorted)" by (rule distinct_fst_sort_reverse)
  then have dist: "distinct (map fst ?kept)"
    by (simp only: take_map[symmetric] distinct_take)
  have pos: "map snd ?kept ! i = scores ! (map fst ?kept ! i)"
    if "i < length (map fst ?kept)" for i
  proof -
    have "i < length ?kept" using that by simp
    then have "?kept ! i \<in> set ?kept" by (rule nth_mem)
    then show ?thesis using mem \<open>i < length ?kept\<close> by (simp del: nth_take)
  qed
  have pair: "map (\<lambda>doc. [JStr q, doc]) docs ! (map fst ?kept ! i) =
      [JStr q, docs ! (map fst ?kept ! i)]"
    if "i < length (map fst ?kept)" for i
  proof -
    have "map fst ?kept ! i \<in> set (map fst ?kept)" using that by (rule nth_mem)
    then have "map fst ?kept ! i < length docs" using range by blast
    then show ?thesis by (rule nth_map)
  qed
  show ?thesis using resp range dist pos pair by simp
qed

theorem rerank_indices_original_positions_witness:
  "snd (rerank stub (Inr (JDict (cat_fields (JInt 2))))) =
     Response 200 (RankingBody [Finite (9/10), Finite (8/10)] [0, 2])
   \<and> (\<exists>ss ids. snd (rerank stub (Inr (JDict (cat_fields (JInt 2))))) =
         Response 200 (RankingBody ss ids)
     \<and> length ss = length ids
     \<and> (\<forall>k\<in>set ids. k < length cat_docs)
     \<and> distinct ids
     \<and> (\<forall>i<length ids. ss ! i = [Finite (9/10), Finite (1/10), Finite (8/10)] ! (ids ! i)
           \<and> map (\<lambda>doc. [JStr ''cat'', doc]) cat_docs ! (ids ! i) =
               [JStr ''cat'', cat_docs ! (ids ! i)]))"
proof -
  have ex: "snd (rerank stub (Inr (JDict (cat_fields (JInt 2))))) =
     Response 200 (RankingBody [Finite (9/10), Finite (8/10)] [0, 2])"
    by (simp add: rerank_unfold stub_def cat_fields_def cat_docs_def)
  have "model stub (map (\<lambda>doc. [JStr ''cat'', doc]) cat_docs) = Inr [Finite (9/10), Finite (1/10), Finite (8/10)]"
    by (simp add: stub_def)
  from rerank_indices_original_positions[of "cat_fields (JInt 2)" "''cat''" cat_docs stub,
      OF _ _ _ _ _ this]
  show ?thesis using ex by (simp add: cat_fields_def cat_docs_def)
qed

text \<open>
  C4. When \<^verbatim>\<open>request.get_json()\<close> raises, as Flask's does with a 400 Bad Request on a
  body that does not parse as JSON, the exception is caught at line 104 and the handler
  answers 500 with the text of the exception. The answer 400 with
  \<^verbatim>\<open>No JSON data provided\<close> is given only when \<^verbatim>\<open>request.get_json()\<close> returns a
  value that is not true, such as \<^verbatim>\<open>None\<close>.
\<close>

theorem rerank_get_json_raises:
  "rerank stub (Inl (Raised bad_request_text)) =
     ([LogError bad_request_text], Response 500 (ErrorBody bad_request_text))
   \<and> status (snd (rerank stub (Inl (Raised bad_request_text)))) \<noteq> 400
   \<and> rerank stub (Inr JNull) = ([], Response 400 (ErrorBody ''No JSON data provided''))"
  by (simp add: rerank_unfold)

text \<open>
  C5. For a body that is a non-empty JSON object whose \<^verbatim>\<open>documents\<close> field is absent or
  has a length (a string, a list or an object), the handler answers 400 with
  \<^verbatim>\<open>Missing 'query' field\<close> exactly when \<^verbatim>\<open>query\<close> is absent or not true (null, false,
  zero, or an empty string, list or object), and 400 with
  \<^verbatim>\<open>Missing or empty 'documents' field\<close> exactly when \<^verbatim>\<open>query\<close> is true and
  \<^verbatim>\<open>documents\<close> is absent or empty; in both cases nothing is logged and the scorer is
  not called.
\<close>

theorem rerank_validation_errors:
  assumes "kvs \<noteq> []"
    and "dict_get (JDict kvs) ''query'' JNull = Inr query"
    and "dict_get (JDict kvs) ''documents'' (JList []) = Inr documents"
    and "py_len documents = Inr n"
  shows "(snd (rerank srv (Inr (JDict kvs))) = Response 400 (ErrorBody ''Missing 'query' field'')
          \<longleftrightarrow> \<not> truthy query)
     \<and> (snd (rerank srv (Inr (JDict kvs))) =
           Response 400 (ErrorBody ''Missing or empty 'documents' field'')
          \<longleftrightarrow> truthy query \<and> \<not> truthy documents)
     \<and> (\<not> truthy query \<or> \<not> truthy documents \<longrightarrow> fst (rerank srv (Inr (JDict kvs))) = [])"
proof -
  let ?top_n = "case map_of kvs ''top_n'' of None \<Rightarrow> JInt (int n) | Some v \<Rightarrow> v"
  have tr: "rerank_try srv (Inr (JDict kvs)) =
     (if \<not> truthy query then ([], Inr (Response 400 (ErrorBody ''Missing 'query' field'')))
      else if \<not> truthy documents then
        ([], Inr (Response 400 (ErrorBody ''Missing or empty 'documents' field'')))
      else score_and_rank srv query documents n ?top_n)"
    using assms by (simp add: rerank_try_def)
  show ?thesis
  proof (cases "truthy query \<and> truthy documents")
    case False
    then show ?thesis by (auto simp: rerank_def tr)
  next
    case True
    obtain evs r where sr: "score_and_rank srv query documents n ?top_n = (evs, r)"
      by (cases "score_and_rank srv query documents n ?top_n")
    have "status (snd (rerank srv (Inr (JDict kvs)))) \<noteq> 400"
    proof (cases r)
      case (Inl e)
      then show ?thesis using True sr by (simp add: rerank_def tr)
    next
      case (Inr resp)
      then have "status resp = 200"
        using score_and_rank_status[of srv query documents n ?top_n evs resp] sr by simp
      then show ?thesis using True sr Inr by (simp add: rerank_def tr)
    qed
    then show ?thesis using True by auto
  qed
qed

theorem rerank_validation_errors_witness:
  "snd (rerank stub (Inr (JDict [(''documents'', JList cat_docs)]))) =
     Response 400 (ErrorBody ''Missing 'query' field'')
   \<and> snd (rerank stub (Inr (JDict [(''query'', JStr ''cat''), (''documents'', JList [])]))) =
     Response 400 (ErrorBody ''Missing or empty 'documents' field'')
   \<and> fst (rerank stub (Inr (JDict [(''documents'', JList cat_docs)]))) = []
   \<and> fst (rerank stub (Inr (JDict [(''query'', JStr ''cat''), (''documents'', JList [])]))) = []"
  using rerank_validation_errors[of "[(''documents'', JList cat_docs)]" JNull "JList cat_docs" 3 stub]
    rerank_validation_errors[of "[(''query'', JStr ''cat''), (''documents'', JList [])]"
      "JStr ''cat''" "JList []" 0 stub]
  by (simp add: cat_docs_def)

text \<open>
  The empty object \<^verbatim>\<open>{}\<close> is a parsed body without a \<^verbatim>\<open>query\<close>, and the guard of
  line 68 answers before the fields are read: the error is \<^verbatim>\<open>No JSON data provided\<close>,
  not \<^verbatim>\<open>Missing 'query' field\<close>.
\<close>

theorem rerank_empty_object_counterexample:
  "dict_get (JDict []) ''query'' JNull = Inr JNull
   \<and> rerank stub (Inr (JDict [])) = ([], Response 400 (ErrorBody ''No JSON data provided''))
   \<and> snd (rerank stub (Inr (JDict []))) \<noteq> Response 400 (ErrorBody ''Missing 'query' field'')"
  by (simp add: rerank_unfold)

text \<open>
  Outside the theorem: a \<^verbatim>\<open>documents\<close> field without a length (null, a number or a
  boolean) fails in \<^verbatim>\<open>len(documents)\<close> at line 73, before \<^verbatim>\<open>query\<close> is checked, and
  the answer is 500.
\<close>

lemma rerank_documents_null:
  "rerank stub (Inr (JDict [(''documents'', JNull)])) =
     ([LogError ''object of type 'NoneType' has no len()''],
      Response 500 (ErrorBody ''object of type 'NoneType' has no len()''))"
  by (simp add: rerank_unfold)

text \<open>
  C6. For a request with a non-empty query and non-empty documents, whatever its
  \<^verbatim>\<open>top_n\<close>, if the call of the scorer raises an exception then the handler answers 500,
  the error of the body is the text of that exception, and the response has no scores and
  no indices.
\<close>

theorem rerank_scorer_raises:
  assumes "map_of kvs ''query'' = Some (JStr q)" and "q \<noteq> []"
    and "map_of kvs ''documents'' = Some (JList docs)" and "docs \<noteq> []"
    and "model srv (map (\<lambda>doc. [JStr q, doc]) docs) = Inl e"
  shows "snd (rerank srv (Inr (JDict kvs))) = Response 500 (ErrorBody (str_exc e))
     \<and> scores_of (snd (rerank srv (Inr (JDict kvs)))) = []
     \<and> indices_of (snd (rerank srv (Inr (JDict kvs)))) = []"
  using assms by (simp add: rerank_def rerank_try_valid score_and_rank_raised)

theorem rerank_scorer_raises_witness:
  "snd (rerank failing_stub (Inr (JDict (cat_fields (JInt 2))))) =
     Response 500 (ErrorBody ''CUDA out of memory'')
   \<and> scores_of (snd (rerank failing_stub (Inr (JDict (cat_fields (JInt 2)))))) = []
   \<and> indices_of (snd (rerank failing_stub (Inr (JDict (cat_fields (JInt 2)))))) = []"
  using rerank_scorer_raises[of "cat_fields (JInt 2)" "''cat''" cat_docs failing_stub
      "Raised ''CUDA out of memory''"]
  by (simp add: cat_fields_def cat_docs_def failing_stub_def)

text \<open>
  C7. The scenario of the specification: the query \<^verbatim>\<open>"cat"\<close>, three documents,
  \<^verbatim>\<open>top_n = 2\<close> and a scorer that returns 0.9, 0.1 and 0.8 give the scores 0.9 and 0.8
  with the indices 0 and 2, with status 200.
\<close>

theorem rerank_cat_scenario:
  "snd (rerank \<lparr>model = (\<lambda>pairs. Inr [Finite 0.9, Finite 0.1, Finite 0.8]), model_name = ''stub''\<rparr>
     (Inr (JDict [(''query'', JStr ''cat''),
        (''documents'', JList [JStr ''a cat sat'', JStr ''a dog ran'', JStr ''feline on a mat'']),
        (''top_n'', JInt 2)])))
   = Response 200 (RankingBody [Finite 0.9, Finite 0.8] [0, 2])"
  by (simp add: rerank_unfold)

text \<open>
  C8. The handler's log, scorer call and response are determined by the scorer and the
  request: two server contexts with the same scorer answer the same request alike, and they
  answer alike two non-empty JSON objects that agree on \<^verbatim>\<open>query\<close>, \<^verbatim>\<open>documents\<close> and
  \<^verbatim>\<open>top_n\<close>, whatever else the objects hold.
\<close>

theorem rerank_deterministic:
  assumes "model srv1 = model srv2"
  shows "rerank srv1 got = rerank srv2 got
     \<and> (kvs1 \<noteq> [] \<and> kvs2 \<noteq> [] \<and> map_of kvs1 ''query'' = map_of kvs2 ''query''
          \<and> map_of kvs1 ''documents'' = map_of kvs2 ''documents''
          \<and> map_of kvs1 ''top_n'' = map_of kvs2 ''top_n''
        \<longrightarrow> rerank srv1 (Inr (JDict kvs1)) = rerank srv2 (Inr (JDict kvs2)))"
proof -
  have sr: "score_and_rank srv1 query documents n top_n =
      score_and_rank srv2 query documents n top_n"
    for query documents n top_n
    unfolding score_and_rank_def assms by (rule refl)
  have "rerank_try srv1 got = rerank_try srv2 got"
    unfolding rerank_try_def sr by (rule refl)
  moreover have "rerank_try srv1 (Inr (JDict kvs1)) = rerank_try srv2 (Inr (JDict kvs2))"
    if "kvs1 \<noteq> []" "kvs2 \<noteq> []" "map_of kvs1 ''query'' = map_of kvs2 ''query''"
      "map_of kvs1 ''documents'' = map_of kvs2 ''documents''"
      "map_of kvs1 ''top_n'' = map_of kvs2 ''top_n''"
    using that by (auto simp: rerank_try_def sr split: sum.splits)
  ultimately show ?thesis by (simp add: rerank_def)
qed

theorem rerank_deterministic_witness:
  "rerank stub (Inr (JDict (cat_fields (JInt 2)))) =
     rerank (stub\<lparr>model_name := ''other''\<rparr>) (Inr (JDict (cat_fields (JInt 2))))
   \<and> rerank stub (Inr (JDict (cat_fields (JInt 2)))) =
     rerank (stub\<lparr>model_name := ''other''\<rparr>)
       (Inr (JDict ((''model'', JStr ''other'') # cat_fields (JInt 2))))"
proof -
  have m: "model stub = model (stub\<lparr>model_name := ''other''\<rparr>)"
    by simp
  note d = rerank_deterministic[OF m, of "Inr (JDict (cat_fields (JInt 2)))"
      "cat_fields (JInt 2)" "(''model'', JStr ''other'') # cat_fields (JInt 2)"]
  have same: "cat_fields (JInt 2) \<noteq> []
      \<and> (''model'', JStr ''other'') # cat_fields (JInt 2) \<noteq> []
      \<and> map_of (cat_fields (JInt 2)) ''query'' =
          map_of ((''model'', JStr ''other'') # cat_fields (JInt 2)) ''query''
      \<and> map_of (cat_fields (JInt 2)) ''documents'' =
          map_of ((''model'', JStr ''other'') # cat_fields (JInt 2)) ''documents''
      \<and> map_of (cat_fields (JInt 2)) ''top_n'' =
          map_of ((''model'', JStr ''other'') # cat_fields (JInt 2)) ''top_n''"
    by (simp add: cat_fields_def)
  from d same show ?thesis by blast
qed

text \<open>
  C9. For a body that is a non-empty JSON object in which \<^verbatim>\<open>query\<close> is absent or not
  true and \<^verbatim>\<open>documents\<close> is absent or an empty list, string or object, the handler
  answers 400 with \<^verbatim>\<open>Missing 'query' field\<close>, with nothing logged and no call of the
  scorer: the check of \<^verbatim>\<open>query\<close> comes first.
\<close>

theorem rerank_query_error_first:
  assumes "kvs \<noteq> []"
    and "dict_get (JDict kvs) ''query'' JNull = Inr query" and "\<not> truthy query"
    and "dict_get (JDict kvs) ''documents'' (JList []) = Inr documents"
    and "py_len documents = Inr 0"
  shows "rerank srv (Inr (JDict kvs)) = ([], Response 400 (ErrorBody ''Missing 'query' field''))"
  using assms by (simp add: rerank_def rerank_try_def)

theorem rerank_query_error_first_witness:
  "rerank stub (Inr (JDict [(''query'', JStr ''''), (''documents'', JList [])])) =
     ([], Response 400 (ErrorBody ''Missing 'query' field''))
   \<and> rerank stub (Inr (JDict [(''top_n'', JInt 3)])) =
     ([], Response 400 (ErrorBody ''Missing 'query' field''))"
  using rerank_query_error_first[of "[(''query'', JStr ''''), (''documents'', JList [])]"
      "JStr ''''" "JList []" stub]
    rerank_query_error_first[of "[(''top_n'', JInt 3)]" JNull "JList []" stub]
  by simp

text \<open>
  The body \<^verbatim>\<open>{}\<close> has neither field, and its answer is the 400 of line 69, not the
  error of the query.
\<close>

theorem rerank_no_fields_counterexample:
  "map_of ([] :: (string \<times> json) list) ''query'' = None
   \<and> map_of ([] :: (string \<times> json) list) ''documents'' = None
   \<and> status (snd (rerank stub (Inr (JDict [])))) = 400
   \<and> snd (rerank stub (Inr (JDict []))) \<noteq> Response 400 (ErrorBody ''Missing 'query' field'')"
  by (simp add: rerank_unfold)

text \<open>
  C10. For a request with a non-empty query and non-empty documents whose \<^verbatim>\<open>top_n\<close> is
  present and is a string, a float, a list or an object (not null, not an integer, not a
  boolean), when the scorer returns, the slice of line 94 raises a TypeError and the
  handler answers 500 with its text, after one call of the scorer; it does not answer 400.
\<close>

theorem rerank_top_n_not_an_index:
  assumes "map_of kvs ''query'' = Some (JStr q)" and "q \<noteq> []"
    and "map_of kvs ''documents'' = Some (JList docs)" and "docs \<noteq> []"
    and "map_of kvs ''top_n'' = Some v"
    and "v \<noteq> JNull" and "\<forall>n. v \<noteq> JInt n" and "\<forall>b. v \<noteq> JBool b"
    and "model srv (map (\<lambda>doc. [JStr q, doc]) docs) = Inr scores"
  shows "rerank srv (Inr (JDict kvs)) =
     ([LogReranking (length docs) (JStr (take 50 q)),
       Predict (map (\<lambda>doc. [JStr q, doc]) docs),
       LogError ''slice indices must be integers or None or have an __index__ method''],
      Response 500
        (ErrorBody ''slice indices must be integers or None or have an __index__ method''))"
proof -
  have "slice_to v xs =
      Inl (TypeError ''slice indices must be integers or None or have an __index__ method'')"
    for xs :: "(nat \<times> pyfloat) list"
    using assms(6-8) by (cases v) auto
  then have "rank v scores =
      ([], Inl (TypeError ''slice indices must be integers or None or have an __index__ method''))"
    by (simp add: rank_def)
  then show ?thesis
    using assms(1-5,9) by (simp add: rerank_def rerank_try_valid score_and_rank_scored)
qed

theorem rerank_top_n_not_an_index_witness:
  "rerank stub (Inr (JDict (cat_fields (JStr ''2'')))) =
     ([LogReranking 3 (JStr ''cat''),
       Predict (map (\<lambda>doc. [JStr ''cat'', doc]) cat_docs),
       LogError ''slice indices must be integers or None or have an __index__ method''],
      Response 500
        (ErrorBody ''slice indices must be integers or None or have an __index__ method''))"
  using rerank_top_n_not_an_index[of "cat_fields (JStr ''2'')" "''cat''" cat_docs "JStr ''2''"
      stub "[Finite (9/10), Finite (1/10), Finite (8/10)]"]
  by (simp add: cat_fields_def cat_docs_def stub_def)

text \<open>
  A \<^verbatim>\<open>top_n\<close> that is null or a boolean is present and is not an integer, and the slice
  accepts it: \<^verbatim>\<open>[:None]\<close> keeps every entry and \<^verbatim>\<open>[:True]\<close> keeps one. The answer
  is 200.
\<close>

theorem rerank_top_n_null_counterexample:
  "snd (rerank stub (Inr (JDict (cat_fields JNull)))) =
     Response 200 (RankingBody [Finite (9/10), Finite (8/10), Finite (1/10)] [0, 2, 1])
   \<and> snd (rerank stub (Inr (JDict (cat_fields (JBool True))))) =
     Response 200 (RankingBody [Finite (9/10)] [0])"
  by (simp add: rerank_unfold stub_def cat_fields_def cat_docs_def)

end
